theory Spec2Isabelle
  imports Complex_Main
begin

section \<open>Animation evaluator: data\<close>

text \<open>
  JavaScript numbers are modelled as \<open>real\<close> (times, samples, weights) and as
  \<open>int\<close> (component counts); array indices are \<open>nat\<close>. Rounding, NaN and
  infinities are not part of the model. An index read outside an array gives
  \<open>undefined\<close> in JavaScript; \<open>lookup\<close> gives \<open>None\<close> there, and using the
  missing object raises \<open>TypeError\<close>.
\<close>

datatype error = TypeError

definition lookup :: "'a list \<Rightarrow> nat \<Rightarrow> 'a option" where
  "lookup xs i = (if i < length xs then Some (xs ! i) else None)"

text \<open>\<open>class AnimData\<close> (anim-track.js): the constructor stores both arguments.\<close>

record AnimData =
  components :: int
  data :: "real list"

definition AnimData_new :: "int \<Rightarrow> real list \<Rightarrow> AnimData" where
  "AnimData_new c d = \<lparr>components = c, data = d\<rparr>"

definition AnimData_get_components :: "AnimData \<Rightarrow> int" where
  "AnimData_get_components this = components this"

definition AnimData_get_data :: "AnimData \<Rightarrow> real list" where
  "AnimData_get_data this = data this"

text \<open>
  The constructor as section 4.1 of the specification words it: it validates
  \<open>components > 0\<close> and \<open>len(data) % components == 0\<close> and fails otherwise.
  This definition follows the specification, not the source; it is only compared
  with \<open>AnimData_new\<close>.
\<close>

definition AnimData_valid :: "int \<Rightarrow> real list \<Rightarrow> bool" where
  "AnimData_valid c d = (0 < c \<and> int (length d) mod c = 0)"

definition AnimData_new_spec :: "int \<Rightarrow> real list \<Rightarrow> AnimData option" where
  "AnimData_new_spec c d =
     (if AnimData_valid c d then Some \<lparr>components = c, data = d\<rparr> else None)"

text \<open>
  Modelled from the spec: the interpolation constants and \<open>class AnimCurve\<close> are not
  among the sources; section 3 gives a curve an input index, an output index and
  one of three interpolation modes. \<open>AnimTrack.eval\<close> reads the fields
  \<open>_input\<close>, \<open>_output\<close> and \<open>_interpolation\<close>.
\<close>

datatype interpolation = Step | Linear | CubicSpline

record AnimCurve =
  curve_input :: nat
  curve_output :: nat
  curve_interpolation :: interpolation

text \<open>
  Modelled from the spec: \<open>class AnimEvents\<close> is not among the sources; a track's
  events are an ordered sequence of (time, payload).
\<close>

record AnimEvents =
  events :: "(real \<times> string) list"

text \<open>\<open>class AnimTrack\<close> (anim-track.js).\<close>

record AnimTrack =
  track_name :: string
  track_duration :: real
  track_inputs :: "AnimData list"
  track_outputs :: "AnimData list"
  track_curves :: "AnimCurve list"
  track_animEvents :: AnimEvents

text \<open>\<open>class AnimSnapshot\<close> (anim-snapshot.js). \<open>_cache\<close> and \<open>_results\<close> are arrays
  of references: addresses into the stores of cache objects and of result
  buffers.\<close>

record AnimSnapshot =
  snap_name :: string
  snap_time :: real
  snap_cache :: "nat list"
  snap_results :: "nat list"

text \<open>
  The heap. Tracks, snapshots, cache objects and result buffers are JavaScript
  objects that are shared by reference and mutated in place; each kind lives in
  a store, an object's address is its index, and \<open>new\<close> appends to the store.
  The type \<open>'c\<close> is the state of one \<open>AnimCache\<close>.
\<close>

record 'c heap =
  tracks :: "AnimTrack list"
  snapshots :: "AnimSnapshot list"
  caches :: "'c list"
  buffers :: "real list list"

definition empty_heap :: "'c heap" where
  "empty_heap = \<lparr>tracks = [], snapshots = [], caches = [], buffers = []\<rparr>"

section \<open>AnimTrack\<close>

text \<open>The constructor; \<open>animEvents\<close> defaults to \<open>new AnimEvents([])\<close>.\<close>

definition AnimTrack_new ::
  "string \<Rightarrow> real \<Rightarrow> AnimData list \<Rightarrow> AnimData list \<Rightarrow> AnimCurve list \<Rightarrow>
   AnimEvents option \<Rightarrow> 'c heap \<Rightarrow> nat \<times> 'c heap" where
  "AnimTrack_new name duration inputs outputs curves animEvents h =
     (length (tracks h),
      h\<lparr>tracks := tracks h @
         [\<lparr>track_name = name, track_duration = duration, track_inputs = inputs,
           track_outputs = outputs, track_curves = curves,
           track_animEvents = (case animEvents of None \<Rightarrow> \<lparr>events = []\<rparr> | Some e \<Rightarrow> e)\<rparr>]\<rparr>)"

definition AnimTrack_get_name :: "AnimTrack \<Rightarrow> string" where
  "AnimTrack_get_name this = track_name this"

definition AnimTrack_get_duration :: "AnimTrack \<Rightarrow> real" where
  "AnimTrack_get_duration this = track_duration this"

definition AnimTrack_get_inputs :: "AnimTrack \<Rightarrow> AnimData list" where
  "AnimTrack_get_inputs this = track_inputs this"

definition AnimTrack_get_outputs :: "AnimTrack \<Rightarrow> AnimData list" where
  "AnimTrack_get_outputs this = track_outputs this"

definition AnimTrack_get_curves :: "AnimTrack \<Rightarrow> AnimCurve list" where
  "AnimTrack_get_curves this = track_curves this"

definition AnimTrack_get_events :: "AnimTrack \<Rightarrow> (real \<times> string) list" where
  "AnimTrack_get_events this = events (track_animEvents this)"

text \<open>\<open>set events(animEvents)\<close>: replaces \<open>_animEvents\<close> of the track at address
  \<open>ta\<close>. A call through a reference that holds no track is a \<open>TypeError\<close>.\<close>

definition AnimTrack_set_events :: "nat \<Rightarrow> AnimEvents \<Rightarrow> 'c heap \<Rightarrow> error option \<times> 'c heap" where
  "AnimTrack_set_events ta animEvents h =
     (case lookup (tracks h) ta of
        None \<Rightarrow> (Some TypeError, h)
      | Some this \<Rightarrow>
          (None, h\<lparr>tracks := (tracks h)[ta := this\<lparr>track_animEvents := animEvents\<rparr>]\<rparr>))"

text \<open>
  \<open>AnimTrack.eval\<close>, first loop: \<open>cache[i].update(time, inputs[i]._data)\<close> for
  \<open>i = 0 .. inputs.length - 1\<close>. The list argument is the inputs from index \<open>i\<close>
  on. \<open>AnimCache.update\<close> is not among the sources: it is the parameter \<open>upd\<close>,
  which (section 4.2) repositions the cache and writes nothing else. When
  \<open>cache[i]\<close> is undefined the call raises and the loop stops with the stores
  as they are.
\<close>

fun update_inputs ::
  "(real \<Rightarrow> real list \<Rightarrow> 'c \<Rightarrow> 'c) \<Rightarrow> real \<Rightarrow> AnimData list \<Rightarrow> nat \<Rightarrow> nat list \<Rightarrow>
   'c list \<Rightarrow> error option \<times> 'c list" where
  "update_inputs upd time [] i cache cs = (None, cs)"
| "update_inputs upd time (inp # inps) i cache cs =
     (case lookup cache i of
        None \<Rightarrow> (Some TypeError, cs)
      | Some a \<Rightarrow>
          (case lookup cs a of
             None \<Rightarrow> (Some TypeError, cs)
           | Some c \<Rightarrow>
               update_inputs upd time inps (Suc i) cache (cs[a := upd time (data inp) c])))"

text \<open>
  Second loop: for curve \<open>i\<close>, \<open>cache[curve._input].eval(results[i],
  curve._interpolation, outputs[curve._output])\<close>. \<open>AnimCache.eval\<close> is not among
  the sources: it is the parameter \<open>ev\<close>, which (section 4.2) reads the cache
  and the output data and writes the result buffer. When \<open>cache[curve._input]\<close>
  is undefined the method call itself raises \<open>TypeError\<close>. \<open>AnimTrack.eval\<close>
  tests neither \<open>outputs[curve._output]\<close> nor \<open>results[i]\<close>: an undefined one is
  handed to \<open>cache.eval\<close>. Modelled from the spec: what the absent
  \<open>AnimCache.eval\<close> does with an undefined output or result buffer is taken
  from section 7, where a curve that references nothing is fatal; the loop
  stops with \<open>TypeError\<close>. A snapshot built for the evaluated track never
  reaches these branches.
\<close>

fun eval_curves ::
  "('c \<Rightarrow> interpolation \<Rightarrow> AnimData \<Rightarrow> real list \<Rightarrow> real list) \<Rightarrow> AnimData list \<Rightarrow>
   AnimCurve list \<Rightarrow> nat \<Rightarrow> nat list \<Rightarrow> nat list \<Rightarrow> 'c list \<Rightarrow> real list list \<Rightarrow>
   error option \<times> real list list" where
  "eval_curves ev outputs [] i cache results cs bs = (None, bs)"
| "eval_curves ev outputs (curve # curves) i cache results cs bs =
     (case lookup outputs (curve_output curve) of
        None \<Rightarrow> (Some TypeError, bs)
      | Some output \<Rightarrow>
          (case lookup results i of
             None \<Rightarrow> (Some TypeError, bs)
           | Some r \<Rightarrow>
               (case lookup cache (curve_input curve) of
                  None \<Rightarrow> (Some TypeError, bs)
                | Some a \<Rightarrow>
                    (case lookup cs a of
                       None \<Rightarrow> (Some TypeError, bs)
                     | Some c \<Rightarrow>
                         (case lookup bs r of
                            None \<Rightarrow> (Some TypeError, bs)
                          | Some result \<Rightarrow>
                              eval_curves ev outputs curves (Suc i) cache results cs
                                (bs[r := ev c (curve_interpolation curve) output result]))))))"

text \<open>
  \<open>AnimTrack.eval(time, snapshot)\<close> on the track at address \<open>ta\<close> and the
  snapshot at address \<open>sa\<close>. It returns the error raised, if any, and the heap
  as the call leaves it (also when it raises part-way).
\<close>

definition AnimTrack_eval ::
  "(real \<Rightarrow> real list \<Rightarrow> 'c \<Rightarrow> 'c) \<Rightarrow>
   ('c \<Rightarrow> interpolation \<Rightarrow> AnimData \<Rightarrow> real list \<Rightarrow> real list) \<Rightarrow>
   nat \<Rightarrow> real \<Rightarrow> nat \<Rightarrow> 'c heap \<Rightarrow> error option \<times> 'c heap" where
  "AnimTrack_eval upd ev ta time sa h =
     (case lookup (tracks h) ta of
        None \<Rightarrow> (Some TypeError, h)
      | Some this \<Rightarrow>
          (case lookup (snapshots h) sa of
             None \<Rightarrow> (Some TypeError, h)
           | Some snapshot \<Rightarrow>
               (let h1 = h\<lparr>snapshots := (snapshots h)[sa := snapshot\<lparr>snap_time := time\<rparr>]\<rparr>;
                    cache = snap_cache snapshot;
                    results = snap_results snapshot
                in case update_inputs upd time (track_inputs this) 0 cache (caches h1) of
                     (Some e, cs) \<Rightarrow> (Some e, h1\<lparr>caches := cs\<rparr>)
                   | (None, cs) \<Rightarrow>
                       (case eval_curves ev (track_outputs this) (track_curves this) 0
                               cache results cs (buffers h1) of
                          (e, bs) \<Rightarrow> (e, h1\<lparr>caches := cs, buffers := bs\<rparr>)))))"

section \<open>AnimSnapshot\<close>

text \<open>Pre-allocation of the input caches: \<open>this._cache[i] = new AnimCache()\<close> for
  every input. \<open>nc\<close> is the state of a new \<open>AnimCache\<close>.\<close>

fun prealloc_caches :: "'c \<Rightarrow> AnimData list \<Rightarrow> nat list \<Rightarrow> 'c list \<Rightarrow> nat list \<times> 'c list" where
  "prealloc_caches nc [] cache cs = (cache, cs)"
| "prealloc_caches nc (inp # inps) cache cs =
     prealloc_caches nc inps (cache @ [length cs]) (cs @ [nc])"

text \<open>Pre-allocation of result storage: for every curve a new array with one \<open>0\<close>
  for each \<open>j < output._components\<close>. An undefined output raises \<open>TypeError\<close>.\<close>

fun prealloc_results ::
  "AnimData list \<Rightarrow> AnimCurve list \<Rightarrow> nat list \<Rightarrow> real list list \<Rightarrow>
   error + (nat list \<times> real list list)" where
  "prealloc_results outputs [] results bs = Inr (results, bs)"
| "prealloc_results outputs (curve # curves) results bs =
     (case lookup outputs (curve_output curve) of
        None \<Rightarrow> Inl TypeError
      | Some output \<Rightarrow>
          prealloc_results outputs curves (results @ [length bs])
            (bs @ [replicate (nat (components output)) 0]))"

text \<open>
  \<open>new AnimSnapshot(animTrack)\<close> for the track at address \<open>ta\<close>: the address of
  the new snapshot and the new heap, or the error raised. When the constructor
  raises, no reference to the objects it had allocated survives, so the heap
  is the caller's old one.
\<close>

definition AnimSnapshot_new :: "'c \<Rightarrow> nat \<Rightarrow> 'c heap \<Rightarrow> error + (nat \<times> 'c heap)" where
  "AnimSnapshot_new nc ta h =
     (case lookup (tracks h) ta of
        None \<Rightarrow> Inl TypeError
      | Some animTrack \<Rightarrow>
          (case prealloc_caches nc (track_inputs animTrack) [] (caches h) of
             (cache, cs) \<Rightarrow>
               (case prealloc_results (track_outputs animTrack) (track_curves animTrack) []
                       (buffers h) of
                  Inl e \<Rightarrow> Inl e
                | Inr (results, bs) \<Rightarrow>
                    Inr (length (snapshots h),
                         h\<lparr>snapshots := snapshots h @
                              [\<lparr>snap_name = AnimTrack_get_name animTrack @ ''Snapshot'',
                                snap_time = - 1, snap_cache = cache, snap_results = results\<rparr>],
                            caches := cs, buffers := bs\<rparr>))))"

text \<open>
  A snapshot is bound to a track when it has the shape the constructor gives it
  for that track: one cache reference per input and one result reference per
  curve, each reference to an object of its store and no object referenced
  twice, and every curve of the track indexes the track's own input and output
  pools (section 3).
\<close>

definition curves_in_range :: "AnimTrack \<Rightarrow> bool" where
  "curves_in_range t =
     list_all (\<lambda>c. curve_input c < length (track_inputs t) \<and>
                    curve_output c < length (track_outputs t)) (track_curves t)"

definition snapshot_bound :: "'c heap \<Rightarrow> nat \<Rightarrow> nat \<Rightarrow> bool" where
  "snapshot_bound h ta sa =
     (case lookup (tracks h) ta of
        None \<Rightarrow> False
      | Some t \<Rightarrow>
          (case lookup (snapshots h) sa of
             None \<Rightarrow> False
           | Some s \<Rightarrow>
               curves_in_range t \<and>
               length (snap_cache s) = length (track_inputs t) \<and>
               length (snap_results s) = length (track_curves t) \<and>
               distinct (snap_cache s) \<and> distinct (snap_results s) \<and>
               list_all (\<lambda>a. a < length (caches h)) (snap_cache s) \<and>
               list_all (\<lambda>r. r < length (buffers h)) (snap_results s)))"

text \<open>
  The heaps a program can build: from the empty heap by the constructors of
  tracks and snapshots, by evaluation and by the \<open>events\<close> setter.
\<close>

inductive reachable ::
  "'c \<Rightarrow> (real \<Rightarrow> real list \<Rightarrow> 'c \<Rightarrow> 'c) \<Rightarrow>
   ('c \<Rightarrow> interpolation \<Rightarrow> AnimData \<Rightarrow> real list \<Rightarrow> real list) \<Rightarrow> 'c heap \<Rightarrow> bool"
  for nc upd ev where
  reach_empty: "reachable nc upd ev empty_heap"
| reach_track:
    "reachable nc upd ev h \<Longrightarrow>
     reachable nc upd ev (snd (AnimTrack_new name duration inputs outputs curves animEvents h))"
| reach_snapshot:
    "reachable nc upd ev h \<Longrightarrow> AnimSnapshot_new nc ta h = Inr (sa, h') \<Longrightarrow>
     reachable nc upd ev h'"
| reach_eval:
    "reachable nc upd ev h \<Longrightarrow> reachable nc upd ev (snd (AnimTrack_eval upd ev ta time sa h))"
| reach_events:
    "reachable nc upd ev h \<Longrightarrow> reachable nc upd ev (snd (AnimTrack_set_events ta animEvents h))"

text \<open>The invariant of reachable heaps: every reference a snapshot holds is to an
  object of its store, and no two snapshots hold the same cache or result
  buffer.\<close>

definition heap_ok :: "'c heap \<Rightarrow> bool" where
  "heap_ok h \<longleftrightarrow>
     (\<forall>i < length (snapshots h).
        (\<forall>a \<in> set (snap_cache (snapshots h ! i)). a < length (caches h)) \<and>
        (\<forall>r \<in> set (snap_results (snapshots h ! i)). r < length (buffers h))) \<and>
     (\<forall>i j. i < length (snapshots h) \<longrightarrow> j < length (snapshots h) \<longrightarrow> i \<noteq> j \<longrightarrow>
        set (snap_cache (snapshots h ! i)) \<inter> set (snap_cache (snapshots h ! j)) = {} \<and>
        set (snap_results (snapshots h ! i)) \<inter> set (snap_results (snapshots h ! j)) = {})"

section \<open>AnimCache\<close>

text \<open>
  Modelled from the spec: \<open>class AnimCache\<close> (anim-cache.js) is not among the
  sources. Sections 3 and 4.2 give it the state \<open>{lastQueryTime, bracketIndex}\<close>
  and the operation \<open>update(time, inputTimes)\<close>: the bracket \<open>[i, i+1)\<close> with
  \<open>inputTimes[i] \<le> time < inputTimes[i+1]\<close>, clamped at both ends
  (\<open>time \<le> first\<close> gives index \<open>0\<close>, \<open>time \<ge> last\<close> gives index \<open>n-2\<close>), found by
  a forward scan from the cached index, and by a binary search when the time
  has moved backward past the cached bracket. A new cache has made no query
  and starts at index \<open>0\<close>. The specification says nothing about a buffer with
  fewer than two times: there the index is \<open>0\<close> (\<open>n - 2\<close> over the naturals).
  A cached index that is no bracket of the buffer is searched again.
\<close>

record AnimCache =
  lastQueryTime :: "real option"
  bracketIndex :: nat

definition AnimCache_new :: AnimCache where
  "AnimCache_new = \<lparr>lastQueryTime = None, bracketIndex = 0\<rparr>"

function scan_forward :: "real \<Rightarrow> real list \<Rightarrow> nat \<Rightarrow> nat" where
  "scan_forward time ts i =
     (if i + 2 < length ts \<and> ts ! (i + 1) \<le> time then scan_forward time ts (i + 1) else i)"
  by pat_completeness auto
termination
  by (relation "measure (\<lambda>(time, ts, i). length ts - i)") auto

declare scan_forward.simps [simp del]

function binary_search :: "real \<Rightarrow> real list \<Rightarrow> nat \<Rightarrow> nat \<Rightarrow> nat" where
  "binary_search time ts lo hi =
     (if lo + 1 < hi
      then (let mid = (lo + hi) div 2
            in if ts ! mid \<le> time then binary_search time ts mid hi
               else binary_search time ts lo mid)
      else lo)"
  by pat_completeness auto
termination
  by (relation "measure (\<lambda>(time, ts, lo, hi). hi - lo)") auto

declare binary_search.simps [simp del]

definition AnimCache_update :: "real \<Rightarrow> real list \<Rightarrow> AnimCache \<Rightarrow> AnimCache" where
  "AnimCache_update time ts c =
     \<lparr>lastQueryTime = Some time,
      bracketIndex =
        (if ts = [] then 0
         else if time \<le> ts ! 0 then 0
         else if ts ! (length ts - 1) \<le> time then length ts - 2
         else if bracketIndex c + 1 < length ts \<and> ts ! bracketIndex c \<le> time
              then scan_forward time ts (bracketIndex c)
         else binary_search time ts 0 (length ts - 1))\<rparr>"

section \<open>AnimComponentLayer\<close>

text \<open>
  The layer's collaborators (the controller, the owning component,
  \<open>AnimTransition\<close> and \<open>Debug\<close>) are not among the sources. Every call the layer
  makes on one of them is recorded, in order, in a log of calls. The state the
  layer reads or writes directly is modelled by the fields it uses:
  \<open>_controller._transitions\<close>, \<open>_component.activate\<close>, \<open>_component.playable\<close>
  and \<open>_component.playing\<close>; the rest of the collaborators' state is the opaque
  field \<open>other\<close>. What a collaborator's method does to that state, and
  what it returns, is a parameter (\<open>collaborators\<close>).
\<close>

text \<open>Modelled from the spec: \<open>class AnimTransition\<close> is not among the sources.
  Section 3 gives a transition the fields from, to, duration and
  transitionOffset; the layer passes them to the constructor as the options
  \<open>from\<close>, \<open>to\<close>, \<open>time\<close> and \<open>transitionOffset\<close>. An option not passed is
  \<open>None\<close>.\<close>

record AnimTransition =
  trans_from :: string
  trans_to :: string
  trans_time :: "real option"
  trans_transitionOffset :: "real option"

datatype 'm call =
    Controller_assignMask "'m option"
  | Controller_assignAnimation string AnimTrack "real option" "bool option"
  | Component_rebind
  | Component_dirtifyTargets
  | Debug_error string

record 'x ext =
  transitions :: "AnimTransition list"
  activate :: bool
  playable :: bool
  playing :: bool
  other :: 'x

record ('m, 'x) collaborators =
  controller_assignMask :: "'m option \<Rightarrow> 'x ext \<Rightarrow> bool \<times> 'x ext"
  controller_assignAnimation ::
    "string \<Rightarrow> AnimTrack \<Rightarrow> real option \<Rightarrow> bool option \<Rightarrow> 'x ext \<Rightarrow> 'x ext"
  component_rebind :: "'x ext \<Rightarrow> 'x ext"
  component_dirtifyTargets :: "'x ext \<Rightarrow> 'x ext"

text \<open>The layer's own fields (\<open>null\<close> mask is \<open>None\<close>), then the layer together with
  its collaborators. The parameter \<open>mask\<close> of \<open>assignMask\<close> is written \<open>mask'\<close>.\<close>

record 'm AnimComponentLayer =
  layer_name :: string
  layer_weight :: real
  layer_blendType :: string
  layer_mask :: "'m option"

record ('m, 'x) layer_state =
  layer :: "'m AnimComponentLayer"
  calls :: "'m call list"
  ext :: "'x ext"

text \<open>The constructor; \<open>weight\<close> defaults to \<open>1\<close> and \<open>blendType\<close> to the constant
  \<open>ANIM_LAYER_OVERWRITE\<close> (not among the sources: a parameter).\<close>

definition AnimComponentLayer_new ::
  "string \<Rightarrow> string \<Rightarrow> real option \<Rightarrow> string option \<Rightarrow> 'm AnimComponentLayer" where
  "AnimComponentLayer_new ANIM_LAYER_OVERWRITE name weight blendType =
     \<lparr>layer_name = name,
      layer_weight = (case weight of None \<Rightarrow> 1 | Some w \<Rightarrow> w),
      layer_blendType = (case blendType of None \<Rightarrow> ANIM_LAYER_OVERWRITE | Some b \<Rightarrow> b),
      layer_mask = None\<rparr>"

definition AnimComponentLayer_set_weight ::
  "('m, 'x) collaborators \<Rightarrow> real \<Rightarrow> ('m, 'x) layer_state \<Rightarrow> ('m, 'x) layer_state" where
  "AnimComponentLayer_set_weight K v s =
     s\<lparr>layer := (layer s)\<lparr>layer_weight := v\<rparr>,
       calls := calls s @ [Component_dirtifyTargets],
       ext := component_dirtifyTargets K (ext s)\<rparr>"

definition AnimComponentLayer_get_weight :: "('m, 'x) layer_state \<Rightarrow> real" where
  "AnimComponentLayer_get_weight s = layer_weight (layer s)"

definition AnimComponentLayer_set_blendType ::
  "('m, 'x) collaborators \<Rightarrow> string \<Rightarrow> ('m, 'x) layer_state \<Rightarrow> ('m, 'x) layer_state" where
  "AnimComponentLayer_set_blendType K v s =
     (if v \<noteq> layer_blendType (layer s)
      then s\<lparr>layer := (layer s)\<lparr>layer_blendType := v\<rparr>,
             calls := calls s @ [Component_rebind],
             ext := component_rebind K (ext s)\<rparr>
      else s)"

definition AnimComponentLayer_get_blendType :: "('m, 'x) layer_state \<Rightarrow> string" where
  "AnimComponentLayer_get_blendType s = layer_blendType (layer s)"

definition AnimComponentLayer_get_mask :: "('m, 'x) layer_state \<Rightarrow> 'm option" where
  "AnimComponentLayer_get_mask s = layer_mask (layer s)"

definition AnimComponentLayer_assignMask ::
  "('m, 'x) collaborators \<Rightarrow> 'm option \<Rightarrow> ('m, 'x) layer_state \<Rightarrow> ('m, 'x) layer_state" where
  "AnimComponentLayer_assignMask K mask' s =
     (case controller_assignMask K mask' (ext s) of
        (changed, e1) \<Rightarrow>
          (let s1 = s\<lparr>calls := calls s @ [Controller_assignMask mask'], ext := e1\<rparr>;
               s2 = (if changed
                     then s1\<lparr>calls := calls s1 @ [Component_rebind],
                             ext := component_rebind K (ext s1)\<rparr>
                     else s1)
           in s2\<lparr>layer := (layer s2)\<lparr>layer_mask := mask'\<rparr>\<rparr>))"

text \<open>
  The values \<open>assignAnimation\<close> can be given as \<open>animTrack\<close>: \<open>undefined\<close>, \<open>null\<close>,
  an object constructed by \<open>AnimTrack\<close>, or a value whose \<open>constructor\<close> is
  another function (named by the string). Reading \<open>.constructor\<close> of \<open>undefined\<close>
  or \<open>null\<close> raises \<open>TypeError\<close>.
\<close>

datatype js_value = Undefined | Null | TrackObject AnimTrack | OtherObject string

definition usage_error :: string where
  "usage_error = ''assignAnimation: animTrack supplied to function was not of type AnimTrack''"

definition AnimComponentLayer_assignAnimation ::
  "('m, 'x) collaborators \<Rightarrow> string \<Rightarrow> js_value \<Rightarrow> real option \<Rightarrow> bool option \<Rightarrow>
   ('m, 'x) layer_state \<Rightarrow> error option \<times> ('m, 'x) layer_state" where
  "AnimComponentLayer_assignAnimation K nodePath animTrack speed loop s =
     (case animTrack of
        Undefined \<Rightarrow> (Some TypeError, s)
      | Null \<Rightarrow> (Some TypeError, s)
      | OtherObject c \<Rightarrow> (None, s\<lparr>calls := calls s @ [Debug_error usage_error]\<rparr>)
      | TrackObject t \<Rightarrow>
          (let e1 = controller_assignAnimation K nodePath t speed loop (ext s);
               e2 = (if length (transitions e1) = 0
                     then e1\<lparr>transitions := transitions e1 @
                            [\<lparr>trans_from = ''START'', trans_to = nodePath,
                              trans_time = None, trans_transitionOffset = None\<rparr>]\<rparr>
                     else e1);
               e3 = (if activate e2 \<and> playable e2 then e2\<lparr>playing := True\<rparr> else e2)
           in (None,
               s\<lparr>calls := calls s @ [Controller_assignAnimation nodePath t speed loop],
                 ext := e3\<rparr>)))"

section \<open>Concrete inputs\<close>

text \<open>A one-curve track, collaborators that do nothing to their own state, and a
  layer in its initial state, used where a statement is evaluated on an
  example.\<close>

definition example_track :: AnimTrack where
  "example_track =
     \<lparr>track_name = ''walk'', track_duration = 1,
      track_inputs = [AnimData_new 1 [0, 1 / 2, 1]],
      track_outputs = [AnimData_new 1 [0, 1, 0]],
      track_curves = [\<lparr>curve_input = 0, curve_output = 0, curve_interpolation = Step\<rparr>],
      track_animEvents = \<lparr>events = []\<rparr>\<rparr>"

text \<open>An evaluator for the examples: whatever the mode, it copies the left sample
  of the cache's bracket. Then the heap holding the example track alone, and
  the heap after two snapshots of that track have been constructed.\<close>

definition example_eval :: "AnimCache \<Rightarrow> interpolation \<Rightarrow> AnimData \<Rightarrow> real list \<Rightarrow> real list" where
  "example_eval c m out result =
     take (nat (components out)) (drop (bracketIndex c * nat (components out)) (data out))"

definition example_track_heap :: "AnimCache heap" where
  "example_track_heap =
     \<lparr>tracks = [example_track], snapshots = [], caches = [], buffers = []\<rparr>"

definition example_heap :: "AnimCache heap" where
  "example_heap =
     \<lparr>tracks = [example_track],
      snapshots =
        [\<lparr>snap_name = ''walkSnapshot'', snap_time = - 1, snap_cache = [0], snap_results = [0]\<rparr>,
         \<lparr>snap_name = ''walkSnapshot'', snap_time = - 1, snap_cache = [1], snap_results = [1]\<rparr>],
      caches = [AnimCache_new, AnimCache_new],
      buffers = [[0], [0]]\<rparr>"

definition example_collaborators :: "(unit, unit) collaborators" where
  "example_collaborators =
     \<lparr>controller_assignMask = (\<lambda>m e. (True, e)),
      controller_assignAnimation = (\<lambda>p t sp lp e. e),
      component_rebind = (\<lambda>e. e),
      component_dirtifyTargets = (\<lambda>e. e)\<rparr>"

definition example_layer :: "(unit, unit) layer_state" where
  "example_layer =
     \<lparr>layer = AnimComponentLayer_new ''OVERWRITE'' ''base'' None None,
      calls = [],
      ext = \<lparr>transitions = [], activate = True, playable = False, playing = False,
             other = ()\<rparr>\<rparr>"

section \<open>Lemmas about the evaluator\<close>

subsection \<open>Loops of the evaluator and of the snapshot constructor\<close>

lemma prealloc_caches_eq:
  "prealloc_caches nc inps cache cs =
     (cache @ [length cs ..< length cs + length inps], cs @ replicate (length inps) nc)"
proof (induction inps arbitrary: cache cs)
  case Nil
  then show ?case by simp
next
  case (Cons inp inps)
  show ?case
    by (simp add: Cons.IH upt_conv_Cons replicate_app_Cons_same del: upt_Suc)
qed

lemma prealloc_results_eq:
  "list_all (\<lambda>c. curve_output c < length outputs) curves \<Longrightarrow>
   prealloc_results outputs curves results bs =
     Inr (results @ [length bs ..< length bs + length curves],
          bs @ map (\<lambda>c. replicate (nat (components (outputs ! curve_output c))) 0) curves)"
proof (induction curves arbitrary: results bs)
  case Nil
  then show ?case by simp
next
  case (Cons c curves)
  then show ?case
    by (simp add: lookup_def upt_conv_Cons del: upt_Suc)
qed

lemma prealloc_results_Inr:
  "prealloc_results outputs curves results bs = Inr (rs, bs') \<Longrightarrow>
   list_all (\<lambda>c. curve_output c < length outputs) curves"
  by (induction curves arbitrary: results bs) (auto simp: lookup_def split: if_splits)

lemma update_inputs_length:
  "length (snd (update_inputs upd time inps i cache cs)) = length cs"
  by (induction inps arbitrary: i cs) (auto simp: lookup_def)

lemma update_inputs_frame_from:
  "(\<And>k. k < length inps \<Longrightarrow> i + k < length cache \<Longrightarrow> cache ! (i + k) \<noteq> a) \<Longrightarrow>
   snd (update_inputs upd time inps i cache cs) ! a = cs ! a"
proof (induction inps arbitrary: i cs)
  case Nil
  then show ?case by simp
next
  case (Cons inp inps)
  show ?case
  proof (cases "i < length cache \<and> cache ! i < length cs")
    case True
    from Cons.prems [of 0] True have ne: "cache ! i \<noteq> a" by simp
    have "snd (update_inputs upd time inps (Suc i) cache
             (cs[cache ! i := upd time (data inp) (cs ! (cache ! i))])) ! a =
          cs[cache ! i := upd time (data inp) (cs ! (cache ! i))] ! a"
    proof (rule Cons.IH)
      fix k assume "k < length inps" "Suc i + k < length cache"
      with Cons.prems [of "Suc k"] show "cache ! (Suc i + k) \<noteq> a" by simp
    qed
    with True ne show ?thesis by (simp add: lookup_def)
  next
    case False
    then show ?thesis by (auto simp: lookup_def)
  qed
qed

lemma update_inputs_frame:
  "a \<notin> set cache \<Longrightarrow> snd (update_inputs upd time inps i cache cs) ! a = cs ! a"
  by (rule update_inputs_frame_from) (metis nth_mem)

lemma update_inputs_ok:
  assumes "i + length inps \<le> length cache" "\<forall>a \<in> set cache. a < length cs" "distinct cache"
  shows "fst (update_inputs upd time inps i cache cs) = None \<and>
    (\<forall>k < length inps. snd (update_inputs upd time inps i cache cs) ! (cache ! (i + k)) =
        upd time (data (inps ! k)) (cs ! (cache ! (i + k))))"
  using assms
proof (induction inps arbitrary: i cs)
  case Nil
  then show ?case by simp
next
  case (Cons inp inps)
  let ?a = "cache ! i"
  let ?cs1 = "cs[?a := upd time (data inp) (cs ! ?a)]"
  let ?res = "update_inputs upd time inps (Suc i) cache ?cs1"
  from Cons.prems have i: "i < length cache" by simp
  with Cons.prems have a: "?a < length cs" by simp
  from i a have unf: "update_inputs upd time (inp # inps) i cache cs = ?res"
    by (simp add: lookup_def)
  have IH: "fst ?res = None \<and>
    (\<forall>k < length inps. snd ?res ! (cache ! (Suc i + k)) =
        upd time (data (inps ! k)) (?cs1 ! (cache ! (Suc i + k))))"
    using Cons.prems by (intro Cons.IH) auto
  have later: "cache ! (Suc i + k) \<noteq> ?a" if "Suc i + k < length cache" for k
    using that i Cons.prems(3) by (simp add: nth_eq_iff_index_eq)
  have first: "snd ?res ! ?a = ?cs1 ! ?a"
    by (rule update_inputs_frame_from) (use later in auto)
  have "snd ?res ! (cache ! (i + k)) = upd time (data ((inp # inps) ! k)) (cs ! (cache ! (i + k)))"
    if k: "k < length (inp # inps)" for k
  proof (cases k)
    case 0
    with first a show ?thesis by simp
  next
    case (Suc k')
    with k Cons.prems(1) have "Suc i + k' < length cache" "k' < length inps" by auto
    with IH later [of k'] Suc show ?thesis by simp
  qed
  with IH unf show ?case by simp
qed

lemma eval_curves_length:
  "length (snd (eval_curves ev outputs curves i cache results cs bs)) = length bs"
  by (induction curves arbitrary: i bs) (auto simp: lookup_def)

lemma eval_curves_frame_from:
  "(\<And>k. k < length curves \<Longrightarrow> i + k < length results \<Longrightarrow> results ! (i + k) \<noteq> r) \<Longrightarrow>
   snd (eval_curves ev outputs curves i cache results cs bs) ! r = bs ! r"
proof (induction curves arbitrary: i bs)
  case Nil
  then show ?case by simp
next
  case (Cons curve curves)
  show ?case
  proof (cases "i < length results")
    case True
    from Cons.prems [of 0] True have ne: "results ! i \<noteq> r" by simp
    have "snd (eval_curves ev outputs curves (Suc i) cache results cs bs') ! r = bs' ! r" for bs'
    proof (rule Cons.IH)
      fix k assume "k < length curves" "Suc i + k < length results"
      with Cons.prems [of "Suc k"] show "results ! (Suc i + k) \<noteq> r" by simp
    qed
    with True ne show ?thesis by (auto simp: lookup_def)
  next
    case False
    then show ?thesis by (auto simp: lookup_def)
  qed
qed

lemma eval_curves_frame:
  "r \<notin> set results \<Longrightarrow> snd (eval_curves ev outputs curves i cache results cs bs) ! r = bs ! r"
  by (rule eval_curves_frame_from) (metis nth_mem)

lemma eval_curves_ok:
  assumes "i + length curves \<le> length results" "\<forall>r \<in> set results. r < length bs"
    "distinct results"
    "\<forall>c \<in> set curves. curve_input c < length cache \<and> cache ! curve_input c < length cs \<and>
        curve_output c < length outputs"
  shows "fst (eval_curves ev outputs curves i cache results cs bs) = None \<and>
    (\<forall>k < length curves. snd (eval_curves ev outputs curves i cache results cs bs) ! (results ! (i + k)) =
        ev (cs ! (cache ! curve_input (curves ! k))) (curve_interpolation (curves ! k))
           (outputs ! curve_output (curves ! k)) (bs ! (results ! (i + k))))"
  using assms
proof (induction curves arbitrary: i bs)
  case Nil
  then show ?case by simp
next
  case (Cons curve curves)
  let ?r = "results ! i"
  let ?bs1 = "bs[?r := ev (cs ! (cache ! curve_input curve)) (curve_interpolation curve)
                   (outputs ! curve_output curve) (bs ! ?r)]"
  let ?res = "eval_curves ev outputs curves (Suc i) cache results cs ?bs1"
  from Cons.prems have i: "i < length results" by simp
  with Cons.prems have r: "?r < length bs" by simp
  from i r Cons.prems(4) have unf:
    "eval_curves ev outputs (curve # curves) i cache results cs bs = ?res"
    by (simp add: lookup_def)
  have IH: "fst ?res = None \<and>
    (\<forall>k < length curves. snd ?res ! (results ! (Suc i + k)) =
        ev (cs ! (cache ! curve_input (curves ! k))) (curve_interpolation (curves ! k))
           (outputs ! curve_output (curves ! k)) (?bs1 ! (results ! (Suc i + k))))"
    using Cons.prems by (intro Cons.IH) auto
  have later: "results ! (Suc i + k) \<noteq> ?r" if "Suc i + k < length results" for k
    using that i Cons.prems(3) by (simp add: nth_eq_iff_index_eq)
  have first: "snd ?res ! ?r = ?bs1 ! ?r"
    by (rule eval_curves_frame_from) (use later in auto)
  have "snd ?res ! (results ! (i + k)) =
      ev (cs ! (cache ! curve_input ((curve # curves) ! k)))
         (curve_interpolation ((curve # curves) ! k))
         (outputs ! curve_output ((curve # curves) ! k)) (bs ! (results ! (i + k)))"
    if k: "k < length (curve # curves)" for k
  proof (cases k)
    case 0
    with first r show ?thesis by simp
  next
    case (Suc k')
    with k Cons.prems(1) have "Suc i + k' < length results" "k' < length curves" by auto
    with IH later [of k'] Suc show ?thesis by simp
  qed
  with IH unf show ?case by simp
qed

subsection \<open>What evaluation does to each store\<close>

lemma eval_tracks: "tracks (snd (AnimTrack_eval upd ev ta time sa h)) = tracks h"
  by (simp add: AnimTrack_eval_def Let_def split: option.splits prod.splits)

lemma eval_snapshots:
  "snapshots (snd (AnimTrack_eval upd ev ta time sa h)) =
     (if ta < length (tracks h) \<and> sa < length (snapshots h)
      then (snapshots h)[sa := (snapshots h ! sa)\<lparr>snap_time := time\<rparr>]
      else snapshots h)"
  by (simp add: AnimTrack_eval_def Let_def lookup_def split: option.splits prod.splits)

lemma eval_caches:
  "caches (snd (AnimTrack_eval upd ev ta time sa h)) =
     (if ta < length (tracks h) \<and> sa < length (snapshots h)
      then snd (update_inputs upd time (track_inputs (tracks h ! ta)) 0
                  (snap_cache (snapshots h ! sa)) (caches h))
      else caches h)"
  by (simp add: AnimTrack_eval_def Let_def lookup_def split: option.splits prod.splits)

lemma eval_buffers:
  "buffers (snd (AnimTrack_eval upd ev ta time sa h)) =
     (if ta < length (tracks h) \<and> sa < length (snapshots h) \<and>
         fst (update_inputs upd time (track_inputs (tracks h ! ta)) 0
                (snap_cache (snapshots h ! sa)) (caches h)) = None
      then snd (eval_curves ev (track_outputs (tracks h ! ta)) (track_curves (tracks h ! ta)) 0
                  (snap_cache (snapshots h ! sa)) (snap_results (snapshots h ! sa))
                  (snd (update_inputs upd time (track_inputs (tracks h ! ta)) 0
                          (snap_cache (snapshots h ! sa)) (caches h)))
                  (buffers h))
      else buffers h)"
  by (auto simp add: AnimTrack_eval_def Let_def lookup_def split: option.splits prod.splits)

lemma eval_fst:
  "fst (AnimTrack_eval upd ev ta time sa h) =
     (if ta < length (tracks h) \<and> sa < length (snapshots h)
      then (case fst (update_inputs upd time (track_inputs (tracks h ! ta)) 0
                (snap_cache (snapshots h ! sa)) (caches h)) of
              Some e \<Rightarrow> Some e
            | None \<Rightarrow>
               fst (eval_curves ev (track_outputs (tracks h ! ta)) (track_curves (tracks h ! ta)) 0
                  (snap_cache (snapshots h ! sa)) (snap_results (snapshots h ! sa))
                  (snd (update_inputs upd time (track_inputs (tracks h ! ta)) 0
                          (snap_cache (snapshots h ! sa)) (caches h)))
                  (buffers h)))
      else Some TypeError)"
  by (auto simp add: AnimTrack_eval_def Let_def lookup_def split: option.splits prod.splits)

lemma eval_caches_length:
  "length (caches (snd (AnimTrack_eval upd ev ta time sa h))) = length (caches h)"
  by (simp add: eval_caches update_inputs_length)

lemma eval_buffers_length:
  "length (buffers (snd (AnimTrack_eval upd ev ta time sa h))) = length (buffers h)"
  by (simp add: eval_buffers eval_curves_length)

lemma eval_snapshots_length:
  "length (snapshots (snd (AnimTrack_eval upd ev ta time sa h))) = length (snapshots h)"
  by (simp add: eval_snapshots)

lemma eval_snap_cache:
  "snap_cache (snapshots (snd (AnimTrack_eval upd ev ta time sa h)) ! b) =
   snap_cache (snapshots h ! b)"
  by (cases "b = sa") (simp_all add: eval_snapshots)

lemma eval_snap_results:
  "snap_results (snapshots (snd (AnimTrack_eval upd ev ta time sa h)) ! b) =
   snap_results (snapshots h ! b)"
  by (cases "b = sa") (simp_all add: eval_snapshots)

lemma eval_other_snapshot:
  "b \<noteq> sa \<Longrightarrow> snapshots (snd (AnimTrack_eval upd ev ta time sa h)) ! b = snapshots h ! b"
  by (simp add: eval_snapshots)

lemma eval_caches_frame:
  "a \<notin> set (snap_cache (snapshots h ! sa)) \<Longrightarrow>
   caches (snd (AnimTrack_eval upd ev ta time sa h)) ! a = caches h ! a"
  by (simp add: eval_caches update_inputs_frame)

lemma eval_buffers_frame:
  "r \<notin> set (snap_results (snapshots h ! sa)) \<Longrightarrow>
   buffers (snd (AnimTrack_eval upd ev ta time sa h)) ! r = buffers h ! r"
  by (simp add: eval_buffers eval_curves_frame)

subsection \<open>What the snapshot constructor and the events setter build\<close>

lemma AnimSnapshot_new_Inr:
  assumes "AnimSnapshot_new nc ta h = Inr (sa, h')"
  shows "ta < length (tracks h) \<and>
    list_all (\<lambda>c. curve_output c < length (track_outputs (tracks h ! ta)))
       (track_curves (tracks h ! ta)) \<and>
    sa = length (snapshots h) \<and>
    tracks h' = tracks h \<and>
    snapshots h' = snapshots h @
      [\<lparr>snap_name = track_name (tracks h ! ta) @ ''Snapshot'', snap_time = - 1,
        snap_cache = [length (caches h) ..< length (caches h) + length (track_inputs (tracks h ! ta))],
        snap_results = [length (buffers h) ..< length (buffers h) + length (track_curves (tracks h ! ta))]\<rparr>] \<and>
    caches h' = caches h @ replicate (length (track_inputs (tracks h ! ta))) nc \<and>
    buffers h' = buffers h @
      map (\<lambda>c. replicate (nat (components (track_outputs (tracks h ! ta) ! curve_output c))) 0)
        (track_curves (tracks h ! ta))"
proof -
  from assms have ta: "ta < length (tracks h)"
    by (auto simp: AnimSnapshot_new_def lookup_def split: if_splits)
  let ?t = "tracks h ! ta"
  from assms ta obtain rs bs where
    pr: "prealloc_results (track_outputs ?t) (track_curves ?t) [] (buffers h) = Inr (rs, bs)"
    by (auto simp: AnimSnapshot_new_def lookup_def prealloc_caches_eq split: sum.splits)
  then have rng: "list_all (\<lambda>c. curve_output c < length (track_outputs ?t)) (track_curves ?t)"
    by (rule prealloc_results_Inr)
  from assms ta rng show ?thesis
    by (auto simp: AnimSnapshot_new_def lookup_def prealloc_caches_eq
        prealloc_results_eq [OF rng] AnimTrack_get_name_def)
qed

lemma AnimSnapshot_new_succeeds:
  assumes "ta < length (tracks h)"
    "list_all (\<lambda>c. curve_output c < length (track_outputs (tracks h ! ta)))
       (track_curves (tracks h ! ta))"
  shows "\<exists>h'. AnimSnapshot_new nc ta h = Inr (length (snapshots h), h')"
  using assms
  by (simp add: AnimSnapshot_new_def lookup_def prealloc_caches_eq prealloc_results_eq)

lemma set_events_map:
  "(\<And>t. f (t\<lparr>track_animEvents := e\<rparr>) = f t) \<Longrightarrow>
   map f (tracks (snd (AnimTrack_set_events tb e h))) = map f (tracks h)"
  by (auto simp: AnimTrack_set_events_def lookup_def map_update list_update_same_conv)

lemma set_events_others:
  "(tracks (snd (AnimTrack_set_events tb e h)))[tb := x] = (tracks h)[tb := x] \<and>
   snapshots (snd (AnimTrack_set_events tb e h)) = snapshots h \<and>
   caches (snd (AnimTrack_set_events tb e h)) = caches h \<and>
   buffers (snd (AnimTrack_set_events tb e h)) = buffers h"
  by (simp add: AnimTrack_set_events_def lookup_def)

subsection \<open>The invariant of reachable heaps\<close>

lemma heap_ok_empty: "heap_ok empty_heap"
  by (simp add: heap_ok_def empty_heap_def)

lemma heap_ok_track:
  "heap_ok h \<Longrightarrow> heap_ok (snd (AnimTrack_new name duration inputs outputs curves animEvents h))"
  by (simp add: heap_ok_def AnimTrack_new_def)

lemma heap_ok_events: "heap_ok h \<Longrightarrow> heap_ok (snd (AnimTrack_set_events ta animEvents h))"
  by (simp add: heap_ok_def AnimTrack_set_events_def split: option.splits)

lemma heap_ok_eval: "heap_ok h \<Longrightarrow> heap_ok (snd (AnimTrack_eval upd ev ta time sa h))"
  unfolding heap_ok_def
  by (simp only: eval_snap_cache eval_snap_results eval_caches_length eval_buffers_length
      eval_snapshots_length)

lemma heap_ok_snapshot:
  assumes ok: "heap_ok h" and new: "AnimSnapshot_new nc ta h = Inr (sa, h')"
  shows "heap_ok h'"
proof -
  let ?t = "tracks h ! ta"
  let ?n = "length (snapshots h)"
  let ?c = "[length (caches h) ..< length (caches h) + length (track_inputs ?t)]"
  let ?r = "[length (buffers h) ..< length (buffers h) + length (track_curves ?t)]"
  from AnimSnapshot_new_Inr [OF new] have
    sn: "snapshots h' = snapshots h @
      [\<lparr>snap_name = track_name ?t @ ''Snapshot'', snap_time = - 1, snap_cache = ?c,
        snap_results = ?r\<rparr>]"
    and cl: "length (caches h') = length (caches h) + length (track_inputs ?t)"
    and bl: "length (buffers h') = length (buffers h) + length (track_curves ?t)"
    by simp_all
  have len: "length (snapshots h') = Suc ?n" by (simp add: sn)
  have old: "snapshots h' ! i = snapshots h ! i" if "i < ?n" for i
    using that by (simp add: sn nth_append)
  have newc: "snap_cache (snapshots h' ! ?n) = ?c" and newr: "snap_results (snapshots h' ! ?n) = ?r"
    by (simp_all add: sn)
  have oldc: "\<forall>a \<in> set (snap_cache (snapshots h ! i)). a < length (caches h)" if "i < ?n" for i
    using ok that by (simp add: heap_ok_def)
  have oldr: "\<forall>r \<in> set (snap_results (snapshots h ! i)). r < length (buffers h)" if "i < ?n" for i
    using ok that by (simp add: heap_ok_def)
  have bounds: "(\<forall>a \<in> set (snap_cache (snapshots h' ! i)). a < length (caches h')) \<and>
      (\<forall>r \<in> set (snap_results (snapshots h' ! i)). r < length (buffers h'))"
    if "i < Suc ?n" for i
  proof (cases "i < ?n")
    case True
    with oldc [of i] oldr [of i] show ?thesis
      by (fastforce simp: old cl bl)
  next
    case False
    with that have "i = ?n" by simp
    then show ?thesis by (simp add: newc newr cl bl)
  qed
  have fresh: "set (snap_cache (snapshots h' ! i)) \<inter> set (snap_cache (snapshots h' ! ?n)) = {} \<and>
      set (snap_results (snapshots h' ! i)) \<inter> set (snap_results (snapshots h' ! ?n)) = {}"
    if "i < ?n" for i
    using oldc [OF that] oldr [OF that] by (fastforce simp: old that newc newr)
  have disj: "set (snap_cache (snapshots h' ! i)) \<inter> set (snap_cache (snapshots h' ! j)) = {} \<and>
      set (snap_results (snapshots h' ! i)) \<inter> set (snap_results (snapshots h' ! j)) = {}"
    if ij: "i < Suc ?n" "j < Suc ?n" "i \<noteq> j" for i j
  proof -
    consider "i < ?n" "j < ?n" | "i < ?n" "j = ?n" | "i = ?n" "j < ?n"
      using ij by linarith
    then show ?thesis
    proof cases
      case 1
      with ok ij(3) show ?thesis by (simp add: old heap_ok_def)
    next
      case 2
      with fresh [of i] show ?thesis by simp
    next
      case 3
      with fresh [of j] show ?thesis by (simp add: Int_commute)
    qed
  qed
  from bounds disj show ?thesis
    unfolding heap_ok_def len by blast
qed

lemma reachable_heap_ok: "reachable nc upd ev h \<Longrightarrow> heap_ok h"
proof (induction rule: reachable.induct)
  case reach_empty
  show ?case by (rule heap_ok_empty)
next
  case (reach_track h name duration inputs outputs curves animEvents)
  then show ?case by (simp add: heap_ok_track)
next
  case (reach_snapshot h ta sa h')
  then show ?case by (auto intro: heap_ok_snapshot)
next
  case (reach_eval h ta time sa)
  then show ?case by (simp add: heap_ok_eval)
next
  case (reach_events h ta animEvents)
  then show ?case by (simp add: heap_ok_events)
qed

subsection \<open>Bound snapshots\<close>

lemma snapshot_boundD:
  assumes "snapshot_bound h ta sa"
  shows "ta < length (tracks h)" "sa < length (snapshots h)"
    "curves_in_range (tracks h ! ta)"
    "length (snap_cache (snapshots h ! sa)) = length (track_inputs (tracks h ! ta))"
    "length (snap_results (snapshots h ! sa)) = length (track_curves (tracks h ! ta))"
    "distinct (snap_cache (snapshots h ! sa))" "distinct (snap_results (snapshots h ! sa))"
    "\<forall>a \<in> set (snap_cache (snapshots h ! sa)). a < length (caches h)"
    "\<forall>r \<in> set (snap_results (snapshots h ! sa)). r < length (buffers h)"
  using assms
  by (auto simp: snapshot_bound_def lookup_def list_all_iff split: option.splits if_splits)

lemma snapshot_bound_eval:
  "snapshot_bound h ta sa \<Longrightarrow> snapshot_bound (snd (AnimTrack_eval upd ev tb time sb h)) ta sa"
  by (auto simp: snapshot_bound_def lookup_def eval_tracks eval_snap_cache eval_snap_results
      eval_caches_length eval_buffers_length eval_snapshots_length
      split: option.splits if_splits)

lemma snapshot_bound_new:
  assumes new: "AnimSnapshot_new nc ta h = Inr (sa, h')"
    and rng: "curves_in_range (tracks h ! ta)"
  shows "snapshot_bound h' ta sa"
  using AnimSnapshot_new_Inr [OF new] rng
  by (simp add: snapshot_bound_def lookup_def list_all_iff)

subsection \<open>The example heap\<close>

lemma example_track_heap_reachable:
  "reachable nc upd ev (example_track_heap :: AnimCache heap)"
proof -
  have "snd (AnimTrack_new ''walk'' 1 [AnimData_new 1 [0, 1 / 2, 1]] [AnimData_new 1 [0, 1, 0]]
          [\<lparr>curve_input = 0, curve_output = 0, curve_interpolation = Step\<rparr>] None empty_heap) =
        (example_track_heap :: AnimCache heap)"
    by (simp add: AnimTrack_new_def empty_heap_def example_track_heap_def example_track_def)
  with reach_track [OF reach_empty] show ?thesis by metis
qed

lemma example_heap_reachable:
  "reachable AnimCache_new upd ev example_heap"
proof -
  let ?h1 = "\<lparr>tracks = [example_track],
      snapshots =
        [\<lparr>snap_name = ''walkSnapshot'', snap_time = - 1, snap_cache = [0], snap_results = [0]\<rparr>],
      caches = [AnimCache_new], buffers = [[0]]\<rparr>"
  have 1: "AnimSnapshot_new AnimCache_new 0 example_track_heap = Inr (0, ?h1)"
    by (simp add: AnimSnapshot_new_def example_track_heap_def example_track_def lookup_def
        AnimData_new_def AnimTrack_get_name_def)
  have 2: "AnimSnapshot_new AnimCache_new 0 ?h1 = Inr (1, example_heap)"
    by (simp add: AnimSnapshot_new_def example_heap_def example_track_def lookup_def
        AnimData_new_def AnimTrack_get_name_def)
  from reach_snapshot [OF reach_snapshot [OF example_track_heap_reachable 1] 2]
  show ?thesis .
qed

lemma example_eval_result:
  "AnimTrack_eval AnimCache_update example_eval 0 (3 / 4) 0 example_heap =
     (None,
      \<lparr>tracks = [example_track],
       snapshots =
         [\<lparr>snap_name = ''walkSnapshot'', snap_time = 3 / 4, snap_cache = [0], snap_results = [0]\<rparr>,
          \<lparr>snap_name = ''walkSnapshot'', snap_time = - 1, snap_cache = [1], snap_results = [1]\<rparr>],
       caches = [\<lparr>lastQueryTime = Some (3 / 4), bracketIndex = 1\<rparr>, AnimCache_new],
       buffers = [[1], [0]]\<rparr>)"
  by (simp add: AnimTrack_eval_def example_heap_def example_track_def lookup_def
        AnimData_new_def AnimCache_update_def AnimCache_new_def example_eval_def Let_def
        scan_forward.simps)

section \<open>AnimTrack.eval and AnimSnapshot: the claims\<close>

text \<open>
  Claim C1. For every time and every snapshot bound to the track,
  \<open>AnimTrack.eval(time, snapshot)\<close> returns normally and leaves the heap so that:
  the snapshot's time is \<open>time\<close>; for every input index \<open>i\<close> the snapshot's
  cache \<open>i\<close> is the old cache after \<open>update(time, inputs[i].data)\<close>; and for
  every curve \<open>k\<close> the curve's result buffer is what \<open>eval\<close> of the already
  updated cache \<open>cache[curve.input]\<close> writes into the old buffer, with the
  curve's interpolation and \<open>outputs[curve.output]\<close>.
\<close>

theorem AnimTrack_eval_bound_snapshot:
  assumes "snapshot_bound h ta sa"
  shows "let t = tracks h ! ta; s = snapshots h ! sa;
             h' = snd (AnimTrack_eval upd ev ta time sa h)
         in fst (AnimTrack_eval upd ev ta time sa h) = None \<and>
            snap_time (snapshots h' ! sa) = time \<and>
            (\<forall>i < length (track_inputs t).
               caches h' ! (snap_cache s ! i) =
                 upd time (data (track_inputs t ! i)) (caches h ! (snap_cache s ! i))) \<and>
            (\<forall>k < length (track_curves t).
               buffers h' ! (snap_results s ! k) =
                 ev (caches h' ! (snap_cache s ! curve_input (track_curves t ! k)))
                    (curve_interpolation (track_curves t ! k))
                    (track_outputs t ! curve_output (track_curves t ! k))
                    (buffers h ! (snap_results s ! k)))"
proof -
  let ?t = "tracks h ! ta" and ?s = "snapshots h ! sa"
  let ?cache = "snap_cache ?s" and ?results = "snap_results ?s"
  let ?u = "update_inputs upd time (track_inputs ?t) 0 ?cache (caches h)"
  let ?e = "eval_curves ev (track_outputs ?t) (track_curves ?t) 0 ?cache ?results (snd ?u) (buffers h)"
  note b = snapshot_boundD [OF assms]
  have u: "fst ?u = None \<and>
    (\<forall>k < length (track_inputs ?t). snd ?u ! (?cache ! (0 + k)) =
        upd time (data (track_inputs ?t ! k)) (caches h ! (?cache ! (0 + k))))"
    using b by (intro update_inputs_ok) simp_all
  have rng: "\<forall>c \<in> set (track_curves ?t). curve_input c < length ?cache \<and>
      ?cache ! curve_input c < length (snd ?u) \<and> curve_output c < length (track_outputs ?t)"
    using b(3,4,8) by (auto simp: curves_in_range_def list_all_iff update_inputs_length)
  have e: "fst ?e = None \<and>
    (\<forall>k < length (track_curves ?t). snd ?e ! (?results ! (0 + k)) =
        ev (snd ?u ! (?cache ! curve_input (track_curves ?t ! k)))
           (curve_interpolation (track_curves ?t ! k))
           (track_outputs ?t ! curve_output (track_curves ?t ! k))
           (buffers h ! (?results ! (0 + k))))"
    using b rng by (intro eval_curves_ok) simp_all
  from b(1,2) u e show ?thesis
    by (simp add: Let_def eval_fst eval_caches eval_buffers eval_snapshots)
qed

text \<open>The example: the first snapshot of the example heap, evaluated at \<open>3/4\<close>.\<close>

theorem AnimTrack_eval_bound_snapshot_witness:
  "snapshot_bound example_heap 0 0 \<and>
   fst (AnimTrack_eval AnimCache_update example_eval 0 (3 / 4) 0 example_heap) = None \<and>
   snap_time (snapshots (snd (AnimTrack_eval AnimCache_update example_eval 0 (3 / 4) 0
      example_heap)) ! 0) = 3 / 4 \<and>
   caches (snd (AnimTrack_eval AnimCache_update example_eval 0 (3 / 4) 0 example_heap)) ! 0 =
     AnimCache_update (3 / 4) [0, 1 / 2, 1] AnimCache_new \<and>
   buffers (snd (AnimTrack_eval AnimCache_update example_eval 0 (3 / 4) 0 example_heap)) ! 0 =
     example_eval (AnimCache_update (3 / 4) [0, 1 / 2, 1] AnimCache_new) Step
       (AnimData_new 1 [0, 1, 0]) [0]"
proof -
  have b: "snapshot_bound example_heap 0 0"
    by (simp add: snapshot_bound_def lookup_def example_heap_def example_track_def
        curves_in_range_def)
  have t: "tracks example_heap ! 0 = example_track"
    and s: "snapshots example_heap ! 0 =
      \<lparr>snap_name = ''walkSnapshot'', snap_time = - 1, snap_cache = [0], snap_results = [0]\<rparr>"
    and c: "caches example_heap ! 0 = AnimCache_new" and r: "buffers example_heap ! 0 = [0]"
    by (simp_all add: example_heap_def)
  from AnimTrack_eval_bound_snapshot [OF b, of AnimCache_update example_eval "3 / 4"] b
  show ?thesis
    by (simp add: Let_def t s c r example_track_def AnimData_new_def)
qed

text \<open>
  Claim C3. For a track whose curves reference outputs of the track's pool with
  a non-negative component count (section 3), \<open>new AnimSnapshot(track)\<close>
  succeeds and the new snapshot holds exactly one cache reference per input and
  one result reference per curve; the referenced objects are distinct and newly
  allocated, every cache is a new \<open>AnimCache\<close>, and the buffer of curve \<open>k\<close> has as
  many entries as \<open>outputs[curve.output]\<close> has components, all zero.
\<close>

theorem AnimSnapshot_new_presizes:
  assumes "ta < length (tracks h)"
    and "list_all (\<lambda>c. curve_output c < length (track_outputs (tracks h ! ta)) \<and>
            0 \<le> components (track_outputs (tracks h ! ta) ! curve_output c))
          (track_curves (tracks h ! ta))"
  shows "\<exists>sa h'. AnimSnapshot_new nc ta h = Inr (sa, h') \<and>
    (let t = tracks h ! ta; s = snapshots h' ! sa
     in sa = length (snapshots h) \<and>
        length (snap_cache s) = length (track_inputs t) \<and> distinct (snap_cache s) \<and>
        (\<forall>i < length (track_inputs t).
           length (caches h) \<le> snap_cache s ! i \<and> snap_cache s ! i < length (caches h') \<and>
           caches h' ! (snap_cache s ! i) = nc) \<and>
        length (snap_results s) = length (track_curves t) \<and> distinct (snap_results s) \<and>
        (\<forall>k < length (track_curves t).
           length (buffers h) \<le> snap_results s ! k \<and> snap_results s ! k < length (buffers h') \<and>
           int (length (buffers h' ! (snap_results s ! k))) =
             components (track_outputs t ! curve_output (track_curves t ! k)) \<and>
           buffers h' ! (snap_results s ! k) =
             replicate (length (buffers h' ! (snap_results s ! k))) 0))"
proof -
  let ?t = "tracks h ! ta"
  from assms(2) have rng:
    "list_all (\<lambda>c. curve_output c < length (track_outputs ?t)) (track_curves ?t)"
    by (simp add: list_all_iff)
  from AnimSnapshot_new_succeeds [OF assms(1) rng] obtain h' where
    new: "AnimSnapshot_new nc ta h = Inr (length (snapshots h), h')" by blast
  note eqs = AnimSnapshot_new_Inr [OF new]
  have comp: "0 \<le> components (track_outputs ?t ! curve_output (track_curves ?t ! k))"
    if "k < length (track_curves ?t)" for k
    using assms(2) that by (simp add: list_all_length)
  have "let t = tracks h ! ta; s = snapshots h' ! length (snapshots h)
     in length (snapshots h) = length (snapshots h) \<and>
        length (snap_cache s) = length (track_inputs t) \<and> distinct (snap_cache s) \<and>
        (\<forall>i < length (track_inputs t).
           length (caches h) \<le> snap_cache s ! i \<and> snap_cache s ! i < length (caches h') \<and>
           caches h' ! (snap_cache s ! i) = nc) \<and>
        length (snap_results s) = length (track_curves t) \<and> distinct (snap_results s) \<and>
        (\<forall>k < length (track_curves t).
           length (buffers h) \<le> snap_results s ! k \<and> snap_results s ! k < length (buffers h') \<and>
           int (length (buffers h' ! (snap_results s ! k))) =
             components (track_outputs t ! curve_output (track_curves t ! k)) \<and>
           buffers h' ! (snap_results s ! k) =
             replicate (length (buffers h' ! (snap_results s ! k))) 0)"
    using eqs comp by (simp add: Let_def nth_append)
  with new show ?thesis by blast
qed

text \<open>The example: the first snapshot constructed for the example track.\<close>

theorem AnimSnapshot_new_presizes_witness:
  "0 < length (tracks example_track_heap) \<and>
   list_all (\<lambda>c. curve_output c < length (track_outputs (tracks example_track_heap ! 0)) \<and>
            0 \<le> components (track_outputs (tracks example_track_heap ! 0) ! curve_output c))
          (track_curves (tracks example_track_heap ! 0)) \<and>
   (\<exists>h'. AnimSnapshot_new AnimCache_new 0 example_track_heap = Inr (0, h') \<and>
      snap_cache (snapshots h' ! 0) = [0] \<and> snap_results (snapshots h' ! 0) = [0] \<and>
      caches h' = [AnimCache_new] \<and> buffers h' = [[0]])"
proof -
  have a: "0 < length (tracks example_track_heap)"
    by (simp add: example_track_heap_def)
  have b: "list_all (\<lambda>c. curve_output c < length (track_outputs (tracks example_track_heap ! 0)) \<and>
            0 \<le> components (track_outputs (tracks example_track_heap ! 0) ! curve_output c))
          (track_curves (tracks example_track_heap ! 0))"
    by (simp add: example_track_heap_def example_track_def AnimData_new_def)
  from AnimSnapshot_new_presizes [OF a b, of AnimCache_new] obtain sa h' where
    new: "AnimSnapshot_new AnimCache_new 0 example_track_heap = Inr (sa, h')" by blast
  then have "sa = 0 \<and> snap_cache (snapshots h' ! 0) = [0] \<and> snap_results (snapshots h' ! 0) = [0] \<and>
      caches h' = [AnimCache_new] \<and> buffers h' = [[0]]"
    by (auto simp: AnimSnapshot_new_def example_track_heap_def example_track_def lookup_def
        AnimData_new_def)
  with new a b show ?thesis by blast
qed

text \<open>
  Claim C4. In every heap the program can build, for two distinct snapshots \<open>A\<close>
  and \<open>B\<close>, every track and every time, \<open>AnimTrack.eval(time, A)\<close> leaves \<open>B\<close>
  as it was: the snapshot object (its time, name and references), every cache
  it references and every result buffer it references. What the call writes
  is \<open>A\<close>'s alone: every cache and every result buffer that \<open>A\<close> does not
  reference, and every snapshot object other than \<open>A\<close>, is unchanged. This
  holds whether or not the evaluation raises.
\<close>

theorem eval_leaves_other_snapshot:
  assumes "reachable nc upd ev h" and "A \<noteq> B" and "B < length (snapshots h)"
  shows "snapshots (snd (AnimTrack_eval upd ev ta time A h)) ! B = snapshots h ! B \<and>
    (\<forall>a \<in> set (snap_cache (snapshots h ! B)).
        caches (snd (AnimTrack_eval upd ev ta time A h)) ! a = caches h ! a) \<and>
    (\<forall>r \<in> set (snap_results (snapshots h ! B)).
        buffers (snd (AnimTrack_eval upd ev ta time A h)) ! r = buffers h ! r) \<and>
    (\<forall>a. a \<notin> set (snap_cache (snapshots h ! A)) \<longrightarrow>
        caches (snd (AnimTrack_eval upd ev ta time A h)) ! a = caches h ! a) \<and>
    (\<forall>r. r \<notin> set (snap_results (snapshots h ! A)) \<longrightarrow>
        buffers (snd (AnimTrack_eval upd ev ta time A h)) ! r = buffers h ! r) \<and>
    (\<forall>b. b \<noteq> A \<longrightarrow>
        snapshots (snd (AnimTrack_eval upd ev ta time A h)) ! b = snapshots h ! b)"
proof -
  have other: "snapshots (snd (AnimTrack_eval upd ev ta time A h)) ! B = snapshots h ! B \<and>
    (\<forall>a \<in> set (snap_cache (snapshots h ! B)).
        caches (snd (AnimTrack_eval upd ev ta time A h)) ! a = caches h ! a) \<and>
    (\<forall>r \<in> set (snap_results (snapshots h ! B)).
        buffers (snd (AnimTrack_eval upd ev ta time A h)) ! r = buffers h ! r)"
  proof (cases "A < length (snapshots h)")
    case True
    from assms(1) have "heap_ok h" by (rule reachable_heap_ok)
    with True assms(2,3) have
      "set (snap_cache (snapshots h ! B)) \<inter> set (snap_cache (snapshots h ! A)) = {}"
      "set (snap_results (snapshots h ! B)) \<inter> set (snap_results (snapshots h ! A)) = {}"
      unfolding heap_ok_def by blast+
    then have "\<forall>a \<in> set (snap_cache (snapshots h ! B)). a \<notin> set (snap_cache (snapshots h ! A))"
      and "\<forall>r \<in> set (snap_results (snapshots h ! B)). r \<notin> set (snap_results (snapshots h ! A))"
      by blast+
    with assms(2) show ?thesis
      by (simp add: eval_other_snapshot eval_caches_frame eval_buffers_frame)
  next
    case False
    then show ?thesis by (simp add: eval_snapshots eval_caches eval_buffers)
  qed
  then show ?thesis
    by (simp add: eval_other_snapshot eval_caches_frame eval_buffers_frame)
qed

text \<open>The example: two snapshots of the one example track; evaluating the first
  at \<open>3/4\<close> moves its own cache and leaves the second untouched.\<close>

theorem eval_leaves_other_snapshot_witness:
  "reachable AnimCache_new AnimCache_update example_eval example_heap \<and>
   (0::nat) \<noteq> 1 \<and> 1 < length (snapshots example_heap) \<and>
   snapshots (snd (AnimTrack_eval AnimCache_update example_eval 0 (3 / 4) 0 example_heap)) ! 1 =
     snapshots example_heap ! 1 \<and>
   caches (snd (AnimTrack_eval AnimCache_update example_eval 0 (3 / 4) 0 example_heap)) ! 1 =
     caches example_heap ! 1 \<and>
   buffers (snd (AnimTrack_eval AnimCache_update example_eval 0 (3 / 4) 0 example_heap)) ! 1 =
     buffers example_heap ! 1 \<and>
   caches (snd (AnimTrack_eval AnimCache_update example_eval 0 (3 / 4) 0 example_heap)) ! 0 \<noteq>
     caches example_heap ! 0"
proof -
  have r: "reachable AnimCache_new AnimCache_update example_eval example_heap"
    by (rule example_heap_reachable)
  have n: "(0::nat) \<noteq> 1" and l: "1 < length (snapshots example_heap)"
    by (simp_all add: example_heap_def)
  have c: "snap_cache (snapshots example_heap ! Suc 0) = [Suc 0]"
    and b: "snap_results (snapshots example_heap ! Suc 0) = [Suc 0]"
    by (simp_all add: example_heap_def)
  have d: "caches (snd (AnimTrack_eval AnimCache_update example_eval 0 (3 / 4) 0 example_heap)) ! 0 \<noteq>
     caches example_heap ! 0"
    by (simp add: example_eval_result) (simp add: example_heap_def AnimCache_new_def)
  from eval_leaves_other_snapshot [OF r n l, of 0 "3 / 4"] r n l d show ?thesis
    by (simp add: c b)
qed

text \<open>
  Claim C8, as amended. \<open>AnimTrack.eval\<close> modifies no track and no \<open>AnimData\<close>:
  the store of tracks is unchanged, and what it writes lies in the evaluated
  snapshot (its time), in the caches that snapshot references and in the
  result buffers that snapshot references. The only operation that writes a
  track is the \<open>events\<close> setter, which replaces the events of the one track it
  is called on and leaves every track's name, duration, inputs, outputs and
  curves, and everything else in the heap, as they were. \<open>AnimData\<close> has no
  operation that writes it.
\<close>

theorem track_fields_immutable:
  "tracks (snd (AnimTrack_eval upd ev ta time sa h)) = tracks h \<and>
   (\<forall>a. a \<in> set (snap_cache (snapshots h ! sa)) \<or>
        caches (snd (AnimTrack_eval upd ev ta time sa h)) ! a = caches h ! a) \<and>
   (\<forall>r. r \<in> set (snap_results (snapshots h ! sa)) \<or>
        buffers (snd (AnimTrack_eval upd ev ta time sa h)) ! r = buffers h ! r) \<and>
   (\<forall>b. b = sa \<or> snapshots (snd (AnimTrack_eval upd ev ta time sa h)) ! b = snapshots h ! b) \<and>
   map track_name (tracks (snd (AnimTrack_set_events tb e h))) = map track_name (tracks h) \<and>
   map track_duration (tracks (snd (AnimTrack_set_events tb e h))) = map track_duration (tracks h) \<and>
   map track_inputs (tracks (snd (AnimTrack_set_events tb e h))) = map track_inputs (tracks h) \<and>
   map track_outputs (tracks (snd (AnimTrack_set_events tb e h))) = map track_outputs (tracks h) \<and>
   map track_curves (tracks (snd (AnimTrack_set_events tb e h))) = map track_curves (tracks h) \<and>
   (tracks (snd (AnimTrack_set_events tb e h)))[tb := x] = (tracks h)[tb := x]"
proof -
  have c: "a \<in> set (snap_cache (snapshots h ! sa)) \<or>
        caches (snd (AnimTrack_eval upd ev ta time sa h)) ! a = caches h ! a" for a
    using eval_caches_frame by blast
  have b: "r \<in> set (snap_results (snapshots h ! sa)) \<or>
        buffers (snd (AnimTrack_eval upd ev ta time sa h)) ! r = buffers h ! r" for r
    using eval_buffers_frame by blast
  have s: "b = sa \<or> snapshots (snd (AnimTrack_eval upd ev ta time sa h)) ! b = snapshots h ! b"
    for b
    using eval_other_snapshot by blast
  from c b s show ?thesis
    by (simp add: eval_tracks set_events_map set_events_others)
qed

text \<open>
  Claim C8 as stated (no public operation modifies a track's events) fails: the
  \<open>events\<close> setter is public and replaces them.
\<close>

theorem track_events_setter_counterexample:
  "AnimTrack_get_events (tracks example_heap ! 0) = [] \<and>
   AnimTrack_get_events
     (tracks (snd (AnimTrack_set_events 0 \<lparr>events = [(1 / 2, ''step'')]\<rparr> example_heap)) ! 0) =
     [(1 / 2, ''step'')]"
  by (simp add: AnimTrack_get_events_def AnimTrack_set_events_def lookup_def example_heap_def
      example_track_def)

section \<open>AnimCache: forward scan and cold seek\<close>

text \<open>Each search ends on a bracket of the buffer, and a sorted buffer has at most
  one bracket for a time, so the cache an update leaves does not depend on the
  cache it started from.\<close>

lemma scan_forward_step:
  "i + 2 < length ts \<Longrightarrow> ts ! (i + 1) \<le> t \<Longrightarrow> scan_forward t ts i = scan_forward t ts (i + 1)"
  by (subst scan_forward.simps) simp

lemma scan_forward_stop:
  "\<not> (i + 2 < length ts \<and> ts ! (i + 1) \<le> t) \<Longrightarrow> scan_forward t ts i = i"
  by (subst scan_forward.simps) auto

lemma binary_search_left:
  "lo + 1 < hi \<Longrightarrow> ts ! ((lo + hi) div 2) \<le> t \<Longrightarrow>
   binary_search t ts lo hi = binary_search t ts ((lo + hi) div 2) hi"
  by (subst binary_search.simps) (simp add: Let_def)

lemma binary_search_right:
  "lo + 1 < hi \<Longrightarrow> \<not> ts ! ((lo + hi) div 2) \<le> t \<Longrightarrow>
   binary_search t ts lo hi = binary_search t ts lo ((lo + hi) div 2)"
  by (subst binary_search.simps) (simp add: Let_def)

lemma binary_search_stop: "\<not> lo + 1 < hi \<Longrightarrow> binary_search t ts lo hi = lo"
  by (subst binary_search.simps) simp

lemma scan_forward_bracket:
  "i + 1 < length ts \<Longrightarrow> ts ! i \<le> t \<Longrightarrow> t < ts ! (length ts - 1) \<Longrightarrow>
   scan_forward t ts i + 1 < length ts \<and> ts ! scan_forward t ts i \<le> t \<and>
   t < ts ! (scan_forward t ts i + 1)"
proof (induction t ts i rule: scan_forward.induct)
  case (1 time ts i)
  show ?case
  proof (cases "i + 2 < length ts \<and> ts ! (i + 1) \<le> time")
    case True
    then have "scan_forward time ts i = scan_forward time ts (i + 1)"
      by (simp add: scan_forward_step)
    moreover from True "1.prems"(3) have
      "scan_forward time ts (i + 1) + 1 < length ts \<and>
       ts ! scan_forward time ts (i + 1) \<le> time \<and>
       time < ts ! (scan_forward time ts (i + 1) + 1)"
      by (intro "1.IH") simp_all
    ultimately show ?thesis by simp
  next
    case False
    then have stop: "scan_forward time ts i = i" by (rule scan_forward_stop)
    have "time < ts ! (i + 1)"
    proof (cases "i + 2 < length ts")
      case True
      with False show ?thesis by simp
    next
      case False
      with "1.prems"(1) have "length ts - 1 = i + 1" by simp
      with "1.prems"(3) show ?thesis by simp
    qed
    with "1.prems" stop show ?thesis by simp
  qed
qed

lemma binary_search_bracket:
  "lo < hi \<Longrightarrow> hi < length ts \<Longrightarrow> ts ! lo \<le> t \<Longrightarrow> t < ts ! hi \<Longrightarrow>
   binary_search t ts lo hi + 1 < length ts \<and> ts ! binary_search t ts lo hi \<le> t \<and>
   t < ts ! (binary_search t ts lo hi + 1)"
proof (induction t ts lo hi rule: binary_search.induct)
  case (1 time ts lo hi)
  show ?case
  proof (cases "lo + 1 < hi")
    case True
    let ?mid = "(lo + hi) div 2"
    from True have mid: "lo < ?mid" "?mid < hi" by simp_all
    show ?thesis
    proof (cases "ts ! ?mid \<le> time")
      case left: True
      have "binary_search time ts ?mid hi + 1 < length ts \<and>
        ts ! binary_search time ts ?mid hi \<le> time \<and>
        time < ts ! (binary_search time ts ?mid hi + 1)"
        using mid left "1.prems" by (intro "1.IH"(1) [OF True refl]) simp_all
      with True left show ?thesis by (simp add: binary_search_left)
    next
      case right: False
      have "binary_search time ts lo ?mid + 1 < length ts \<and>
        ts ! binary_search time ts lo ?mid \<le> time \<and>
        time < ts ! (binary_search time ts lo ?mid + 1)"
        using mid right "1.prems" by (intro "1.IH"(2) [OF True refl]) simp_all
      with True right show ?thesis by (simp add: binary_search_right)
    qed
  next
    case False
    with "1.prems"(1) have hi: "hi = lo + 1" by simp
    from False have stop: "binary_search time ts lo hi = lo" by (rule binary_search_stop)
    from "1.prems" show ?thesis by (simp add: stop) (simp add: hi)
  qed
qed

lemma bracket_unique:
  assumes "sorted ts" "a + 1 < length ts" "b + 1 < length ts"
    "ts ! a \<le> t" "t < ts ! (a + 1)" "ts ! b \<le> t" "t < ts ! (b + 1)"
  shows "a = b"
proof (rule ccontr)
  assume "a \<noteq> b"
  then consider "a + 1 \<le> b" | "b + 1 \<le> a" by linarith
  then show False
  proof cases
    case 1
    with assms(1,3) have "ts ! (a + 1) \<le> ts ! b" by (simp add: sorted_nth_mono)
    with assms(5,6) show False by simp
  next
    case 2
    with assms(1,2) have "ts ! (b + 1) \<le> ts ! a" by (simp add: sorted_nth_mono)
    with assms(4,7) show False by simp
  qed
qed

lemma AnimCache_update_interior:
  assumes "ts \<noteq> []" "ts ! 0 < t" "t < ts ! (length ts - 1)"
  shows "bracketIndex (AnimCache_update t ts c) + 1 < length ts \<and>
    ts ! bracketIndex (AnimCache_update t ts c) \<le> t \<and>
    t < ts ! (bracketIndex (AnimCache_update t ts c) + 1)"
proof (cases "bracketIndex c + 1 < length ts \<and> ts ! bracketIndex c \<le> t")
  case True
  with assms have "bracketIndex (AnimCache_update t ts c) = scan_forward t ts (bracketIndex c)"
    by (simp add: AnimCache_update_def)
  with True assms(3) scan_forward_bracket [of "bracketIndex c" ts t] show ?thesis by simp
next
  case False
  with assms have "bracketIndex (AnimCache_update t ts c) = binary_search t ts 0 (length ts - 1)"
    by (auto simp: AnimCache_update_def)
  moreover from assms have "0 < length ts - 1" by (cases "length ts - 1") auto
  ultimately show ?thesis
    using assms binary_search_bracket [of 0 "length ts - 1" ts t] by simp
qed

lemma AnimCache_update_any_cache:
  assumes "sorted ts"
  shows "AnimCache_update t ts c = AnimCache_update t ts c'"
proof (cases "ts \<noteq> [] \<and> ts ! 0 < t \<and> t < ts ! (length ts - 1)")
  case True
  with AnimCache_update_interior [of ts t c] AnimCache_update_interior [of ts t c'] assms
  have "bracketIndex (AnimCache_update t ts c) = bracketIndex (AnimCache_update t ts c')"
    by (intro bracket_unique [of ts _ _ t]) simp_all
  then show ?thesis by (simp add: AnimCache_update_def)
next
  case False
  then show ?thesis by (auto simp: AnimCache_update_def)
qed

text \<open>
  Claim C5. For every sorted buffer of input times and every pair of query
  times \<open>t1 \<le> t2\<close>, the cache that was queried at \<open>t1\<close> and then at \<open>t2\<close> is in the
  same state as a new cache queried directly at \<open>t2\<close>; hence whatever the
  cache's \<open>eval\<close> computes from that state is the same in both, for every
  interpolation mode, output buffer and result buffer. \<open>AnimCache\<close> is modelled
  from the specification; its \<open>eval\<close> is any function \<open>ev\<close> of the cache state
  and its arguments.
\<close>

theorem AnimCache_scan_equals_cold_seek:
  assumes "sorted ts" and "t1 \<le> t2"
  shows "AnimCache_update t2 ts (AnimCache_update t1 ts AnimCache_new) =
           AnimCache_update t2 ts AnimCache_new \<and>
         ev (AnimCache_update t2 ts (AnimCache_update t1 ts AnimCache_new)) mode out result =
           ev (AnimCache_update t2 ts AnimCache_new) mode out result"
  using AnimCache_update_any_cache [OF assms(1), of t2 "AnimCache_update t1 ts AnimCache_new"
      AnimCache_new]
  by simp

theorem AnimCache_scan_equals_cold_seek_witness:
  "sorted [0, 1 / 2, 1 :: real] \<and> (1 / 4 :: real) \<le> 3 / 4 \<and>
   AnimCache_update (1 / 4) [0, 1 / 2, 1] AnimCache_new =
     \<lparr>lastQueryTime = Some (1 / 4), bracketIndex = 0\<rparr> \<and>
   AnimCache_update (3 / 4) [0, 1 / 2, 1] (AnimCache_update (1 / 4) [0, 1 / 2, 1] AnimCache_new) =
     \<lparr>lastQueryTime = Some (3 / 4), bracketIndex = 1\<rparr> \<and>
   AnimCache_update (3 / 4) [0, 1 / 2, 1] AnimCache_new =
     \<lparr>lastQueryTime = Some (3 / 4), bracketIndex = 1\<rparr> \<and>
   example_eval (AnimCache_update (3 / 4) [0, 1 / 2, 1]
       (AnimCache_update (1 / 4) [0, 1 / 2, 1] AnimCache_new)) Linear (AnimData_new 1 [0, 1, 0]) [0] =
     example_eval (AnimCache_update (3 / 4) [0, 1 / 2, 1] AnimCache_new) Linear
       (AnimData_new 1 [0, 1, 0]) [0]"
proof -
  have s: "sorted [0, 1 / 2, 1 :: real]" and l: "(1 / 4 :: real) \<le> 3 / 4" by simp_all
  have a: "AnimCache_update (1 / 4) [0, 1 / 2, 1] AnimCache_new =
     \<lparr>lastQueryTime = Some (1 / 4), bracketIndex = 0\<rparr>"
    by (simp add: AnimCache_update_def AnimCache_new_def scan_forward.simps)
  have b: "AnimCache_update (3 / 4) [0, 1 / 2, 1] AnimCache_new =
     \<lparr>lastQueryTime = Some (3 / 4), bracketIndex = 1\<rparr>"
    by (simp add: AnimCache_update_def AnimCache_new_def scan_forward.simps)
  from AnimCache_scan_equals_cold_seek [OF s l, of example_eval Linear "AnimData_new 1 [0, 1, 0]" "[0]"]
    s l a b show ?thesis by simp
qed

section \<open>AnimData: construction\<close>

text \<open>
  Claim C2, as amended. The constructor of \<open>AnimData\<close> validates nothing and
  never fails: for every component count \<open>c\<close> and data \<open>d\<close> it stores both
  unchanged, so the getters return exactly \<open>c\<close> and \<open>d\<close> (the data are never
  truncated). On the arguments the specification calls valid it builds what
  the validating constructor of the specification builds; on the others the
  specification's constructor fails and the source's does not.
\<close>

theorem AnimData_new_stores_arguments:
  "AnimData_get_components (AnimData_new c d) = c \<and>
   AnimData_get_data (AnimData_new c d) = d \<and>
   length (AnimData_get_data (AnimData_new c d)) = length d \<and>
   (if AnimData_valid c d then AnimData_new_spec c d = Some (AnimData_new c d)
    else AnimData_new_spec c d = None)"
  by (simp add: AnimData_new_def AnimData_get_components_def AnimData_get_data_def
      AnimData_new_spec_def)

text \<open>
  Claim C2 as stated fails: with \<open>components = 0\<close>, and with three numbers in
  groups of two, the specification's constructor fails while the source's
  hands back an \<open>AnimData\<close> holding exactly those arguments.
\<close>

theorem AnimData_new_validates_counterexample:
  "\<not> AnimData_valid 0 [1] \<and> AnimData_new_spec 0 [1] = None \<and>
   AnimData_get_components (AnimData_new 0 [1]) = 0 \<and>
   AnimData_get_data (AnimData_new 0 [1]) = [1] \<and>
   \<not> AnimData_valid 2 [1, 2, 3] \<and> AnimData_new_spec 2 [1, 2, 3] = None \<and>
   AnimData_get_components (AnimData_new 2 [1, 2, 3]) = 2 \<and>
   AnimData_get_data (AnimData_new 2 [1, 2, 3]) = [1, 2, 3]"
  by (simp add: AnimData_new_def AnimData_get_components_def AnimData_get_data_def
      AnimData_new_spec_def AnimData_valid_def)

section \<open>AnimComponentLayer: mask, weight, blend type, assignAnimation\<close>

text \<open>
  Claim C6. For every mask \<open>M\<close> (\<open>None\<close> is \<open>null\<close>), after \<open>assignMask(M)\<close> the
  mask getter returns exactly \<open>M\<close>; the call asks the controller once and then
  calls the component's \<open>rebind\<close> exactly when the controller's \<open>assignMask\<close>
  returned true: a rebind is among the calls made if and only if the
  controller reported a change.
\<close>

theorem assignMask_round_trip:
  "AnimComponentLayer_get_mask (AnimComponentLayer_assignMask K M s) = M \<and>
   calls (AnimComponentLayer_assignMask K M s) =
     calls s @ [Controller_assignMask M] @
     (if fst (controller_assignMask K M (ext s)) then [Component_rebind] else []) \<and>
   (Component_rebind \<in> set (drop (length (calls s)) (calls (AnimComponentLayer_assignMask K M s)))
      \<longleftrightarrow> fst (controller_assignMask K M (ext s)))"
  by (simp add: AnimComponentLayer_assignMask_def AnimComponentLayer_get_mask_def
      split: prod.splits)

text \<open>
  The guard of \<open>assignAnimation\<close> on the values that have a constructor: for
  every \<open>v\<close> whose constructor is not \<open>AnimTrack\<close> the call reports the usage
  error through \<open>Debug.error\<close> and does nothing else. It returns normally,
  that report is the only call it makes (the controller is not invoked), and
  the layer, the transitions and the playback state are as before.
\<close>

lemma assignAnimation_reports_other_object:
  "AnimComponentLayer_assignAnimation K nodePath (OtherObject c) speed loop s =
     (None, s\<lparr>calls := calls s @ [Debug_error usage_error]\<rparr>)"
  by (simp add: AnimComponentLayer_assignAnimation_def)

text \<open>
  The no-op half holds for every value that is not an \<open>AnimTrack\<close>, \<open>null\<close> and
  \<open>undefined\<close> included: the layer and the collaborators' state are unchanged,
  and the calls made are none, or the one report; the controller is never
  invoked.
\<close>

lemma assignAnimation_non_track_no_op:
  assumes "\<forall>t. v \<noteq> TrackObject t"
  shows "layer (snd (AnimComponentLayer_assignAnimation K nodePath v speed loop s)) = layer s \<and>
    ext (snd (AnimComponentLayer_assignAnimation K nodePath v speed loop s)) = ext s \<and>
    (calls (snd (AnimComponentLayer_assignAnimation K nodePath v speed loop s)) = calls s \<or>
     calls (snd (AnimComponentLayer_assignAnimation K nodePath v speed loop s)) =
       calls s @ [Debug_error usage_error])"
  using assms by (cases v) (simp_all add: AnimComponentLayer_assignAnimation_def)

text \<open>
  Claim C7: for every value that is not an \<open>AnimTrack\<close>, \<open>assignAnimation\<close>
  reports a usage error and is a no-op. The source misses this at \<open>null\<close> and
  at \<open>undefined\<close>. The guard reads \<open>animTrack.constructor\<close>; on either value that
  read raises \<open>TypeError\<close>, so the call does not return normally and the
  usage error that the guard's own message announces is never reported. The
  state is untouched there all the same.
\<close>

theorem assignAnimation_null_undefined_raise:
  "AnimComponentLayer_assignAnimation example_collaborators ''Walk'' Null None None example_layer =
     (Some TypeError, example_layer) \<and>
   AnimComponentLayer_assignAnimation example_collaborators ''Walk'' Undefined None None
     example_layer = (Some TypeError, example_layer) \<and>
   Debug_error usage_error \<notin>
     set (calls (snd (AnimComponentLayer_assignAnimation example_collaborators ''Walk'' Null
                        None None example_layer))) \<and>
   Debug_error usage_error \<notin>
     set (calls (snd (AnimComponentLayer_assignAnimation example_collaborators ''Walk'' Undefined
                        None None example_layer))) \<and>
   AnimComponentLayer_assignAnimation example_collaborators ''Walk'' (OtherObject ''Object'')
     None None example_layer =
     (None, example_layer\<lparr>calls := [Debug_error usage_error]\<rparr>)"
  by (simp add: AnimComponentLayer_assignAnimation_def example_layer_def)

text \<open>
  Claim C9, as amended. Setting \<open>weight\<close> to any \<open>v\<close> stores \<open>v\<close> and always calls
  the component's \<open>dirtifyTargets\<close>. Setting \<open>blendType\<close> to \<open>b\<close> leaves the blend
  type equal to \<open>b\<close> and calls the component's \<open>rebind\<close> exactly when \<open>b\<close> differs
  from the current blend type; assigning the current blend type changes
  nothing and notifies nobody.
\<close>

theorem set_weight_blendType_notify:
  "AnimComponentLayer_get_weight (AnimComponentLayer_set_weight K v s) = v \<and>
   calls (AnimComponentLayer_set_weight K v s) = calls s @ [Component_dirtifyTargets] \<and>
   AnimComponentLayer_get_blendType (AnimComponentLayer_set_blendType K b s) = b \<and>
   calls (AnimComponentLayer_set_blendType K b s) =
     calls s @ (if b \<noteq> AnimComponentLayer_get_blendType s then [Component_rebind] else []) \<and>
   AnimComponentLayer_set_blendType K (AnimComponentLayer_get_blendType s) s = s"
  by (simp add: AnimComponentLayer_set_weight_def AnimComponentLayer_get_weight_def
      AnimComponentLayer_set_blendType_def AnimComponentLayer_get_blendType_def)

text \<open>
  Claim C9 as stated (every assignment to \<open>blendType\<close> notifies) fails: a new
  layer has the default blend type, and assigning that same value makes no
  call at all.
\<close>

theorem set_blendType_same_counterexample:
  "AnimComponentLayer_get_blendType example_layer = ''OVERWRITE'' \<and>
   calls (AnimComponentLayer_set_blendType example_collaborators ''OVERWRITE'' example_layer) =
     calls example_layer \<and>
   AnimComponentLayer_set_blendType example_collaborators ''OVERWRITE'' example_layer =
     example_layer"
  by (simp add: AnimComponentLayer_set_blendType_def AnimComponentLayer_get_blendType_def
      example_layer_def AnimComponentLayer_new_def)

text \<open>
  Claim C10. When \<open>assignAnimation\<close> is given an \<open>AnimTrack\<close> and the
  controller's transition list is empty after the controller's own
  \<open>assignAnimation\<close>, the call succeeds and leaves the list holding exactly the
  default transition from \<open>'START'\<close> to the node path.
\<close>

theorem assignAnimation_default_transition:
  assumes "transitions (controller_assignAnimation K nodePath t speed loop (ext s)) = []"
  shows "fst (AnimComponentLayer_assignAnimation K nodePath (TrackObject t) speed loop s) = None \<and>
    transitions (ext (snd (AnimComponentLayer_assignAnimation K nodePath (TrackObject t)
                             speed loop s))) =
      transitions (controller_assignAnimation K nodePath t speed loop (ext s)) @
      [\<lparr>trans_from = ''START'', trans_to = nodePath, trans_time = None,
        trans_transitionOffset = None\<rparr>]"
  using assms by (simp add: AnimComponentLayer_assignAnimation_def Let_def)

theorem assignAnimation_default_transition_witness:
  "transitions (controller_assignAnimation example_collaborators ''Walk'' example_track
      None None (ext example_layer)) = [] \<and>
   transitions (ext (snd (AnimComponentLayer_assignAnimation example_collaborators ''Walk''
      (TrackObject example_track) None None example_layer))) =
     [\<lparr>trans_from = ''START'', trans_to = ''Walk'', trans_time = None,
       trans_transitionOffset = None\<rparr>]"
proof -
  have h: "transitions (controller_assignAnimation example_collaborators ''Walk'' example_track
      None None (ext example_layer)) = []"
    by (simp add: example_collaborators_def example_layer_def)
  from assignAnimation_default_transition [OF h] h show ?thesis by simp
qed

end
